theory Spec2Isabelle
  imports Complex_Main
begin

section \<open>Times, time windows and doubles\<close>

text \<open>
  The availability plugin of scqc (qcplugin_availability.cpp) works on three library
  types that are declared outside the plugin: \<open>Core::Time\<close>, \<open>Core::TimeWindow\<close> and
  \<open>QcBuffer\<close>. They are modelled here the way the plugin uses them.

  A \<open>Core::Time\<close> is an instant with microsecond resolution: an integer number of
  microseconds since the epoch. The default-constructed \<open>Core::Time()\<close> is the epoch itself.
  A difference of two times, cast to \<open>double\<close>, is a number of seconds.

  A finite \<open>double\<close> is read as the real number it denotes. The sum in the rounding
  helper is rounded to the nearest double, as the machine does, and its conversion to
  \<open>int\<close> has 32 bits; the products, quotients and differences of the evaluator are read as
  exact, and its counters as unbounded integers. The one place where the evaluator can leave
  the finite doubles, the division by the estimated sample count, is modelled with the
  IEEE 754 results written out (type \<open>double\<close> below).
\<close>

type_synonym Time = int

definition Time_default :: Time where
  \<comment> \<open>\<open>Core::Time()\<close>\<close>
  "Time_default = 0"

definition seconds :: "int \<Rightarrow> real" where
  \<comment> \<open>\<open>static_cast<double>(t1 - t2)\<close> for a difference given in microseconds\<close>
  "seconds d = real_of_int d / 1000000"

record TimeWindow =
  tw_startTime :: Time
  tw_endTime :: Time

definition TimeWindow_new :: "Time \<Rightarrow> Time \<Rightarrow> TimeWindow" where
  "TimeWindow_new s e = \<lparr>tw_startTime = s, tw_endTime = e\<rparr>"

definition tw_length :: "TimeWindow \<Rightarrow> real" where
  \<comment> \<open>Modelled from the spec: \<open>Core::TimeWindow\<close> is declared outside the plugin;
      \<open>length(A)\<close> is \<open>A.end - A.start\<close> in seconds.\<close>
  "tw_length a = seconds (tw_endTime a - tw_startTime a)"

definition tw_contains :: "TimeWindow \<Rightarrow> TimeWindow \<Rightarrow> bool" where
  \<comment> \<open>Modelled from the spec: \<open>contains(A, B)\<close> iff \<open>A.start \<le> B.start\<close> and
      \<open>B.end \<le> A.end\<close>.\<close>
  "tw_contains a b \<longleftrightarrow> tw_startTime a \<le> tw_startTime b \<and> tw_endTime b \<le> tw_endTime a"

definition tw_overlaps :: "TimeWindow \<Rightarrow> TimeWindow \<Rightarrow> bool" where
  \<comment> \<open>Modelled from the spec: \<open>overlaps(A, B)\<close> iff \<open>A.start < B.end\<close> and
      \<open>B.start < A.end\<close>.\<close>
  "tw_overlaps a b \<longleftrightarrow> tw_startTime a < tw_endTime b \<and> tw_startTime b < tw_endTime a"

datatype double = Finite real | PosInf | NegInf | NaN

definition double_div :: "real \<Rightarrow> real \<Rightarrow> double" where
  \<comment> \<open>\<open>x / y\<close> on finite doubles; a zero divisor is the positive zero that the
      conversion of the \<open>int\<close> 0 gives\<close>
  "double_div x y =
     (if y = 0 then (if x = 0 then NaN else if 0 < x then PosInf else NegInf)
      else Finite (x / y))"

fun double_gt :: "double \<Rightarrow> real \<Rightarrow> bool" where
  \<comment> \<open>\<open>d > c\<close> for a finite constant \<open>c\<close>; every comparison with NaN is false\<close>
  "double_gt (Finite x) c = (c < x)"
| "double_gt PosInf c = True"
| "double_gt NegInf c = False"
| "double_gt NaN c = False"

section \<open>Seiscomp::Private::round\<close>

text \<open>
  Binary64 arithmetic: a double is a number \<open>m * 2^e\<close> with \<open>|m| < 2^53\<close>, and the
  result of an operation is the double nearest to the exact result, the one with the even
  significand when two are equally near. The exponent range is not bounded here: no
  overflow to infinity and no subnormal numbers, which the sum \<open>val + 0.5\<close> of a finite
  double cannot reach.
\<close>

definition round_even :: "real \<Rightarrow> int" where
  \<comment> \<open>the nearest integer, the even one at a tie\<close>
  "round_even r =
     (let f = \<lfloor>r\<rfloor>; d = r - real_of_int f
      in if d < 1 / 2 then f else if 1 / 2 < d then f + 1 else if even f then f else f + 1)"

definition binade :: "real \<Rightarrow> int" where
  \<comment> \<open>the exponent \<open>e\<close> with \<open>2^e \<le> |x| < 2^(e+1)\<close>\<close>
  "binade x = \<lfloor>log 2 \<bar>x\<bar>\<rfloor>"

definition to_double :: "real \<Rightarrow> real" where
  \<comment> \<open>the double nearest to \<open>x\<close>: 53 significant bits\<close>
  "to_double x =
     (if x = 0 then 0
      else let u = 2 powr (real_of_int (binade x) - 52)
           in real_of_int (round_even (x / u)) * u)"

definition double_to_int :: "real \<Rightarrow> int" where
  \<comment> \<open>\<open>static_cast<int>\<close> of a double: the fractional part is discarded. The result has
      32 bits; outside their range the conversion is undefined in C++, and the machine
      instruction (cvttsd2si on x86-64) gives the least \<open>int\<close>, which is what is written
      here.\<close>
  "double_to_int x =
     (let t = (if 0 \<le> x then \<lfloor>x\<rfloor> else \<lceil>x\<rceil>)
      in if - 2147483648 \<le> t \<and> t \<le> 2147483647 then t else - 2147483648)"

definition round_private :: "real \<Rightarrow> int" where
  "round_private val = double_to_int (to_double (val + 0.5))"

section \<open>QcParameter and QcBuffer\<close>

record QcParameter =
  recordStartTime :: Time
  recordEndTime :: Time
  recordSamplingFrequency :: real
  parameter :: real

type_synonym QcBuffer = "QcParameter list"

definition startTime :: "QcBuffer \<Rightarrow> Time" where
  \<comment> \<open>Modelled from the spec: \<open>startTime()\<close> is the front's \<open>recordStartTime\<close>.
      Called on a non-empty buffer only.\<close>
  "startTime buf = recordStartTime (hd buf)"

definition endTime :: "QcBuffer \<Rightarrow> Time" where
  \<comment> \<open>Modelled from the spec: \<open>endTime()\<close> is the back's \<open>recordEndTime\<close>.
      Called on a non-empty buffer only.\<close>
  "endTime buf = recordEndTime (last buf)"

definition buf_length :: "QcBuffer \<Rightarrow> real" where
  \<comment> \<open>Modelled from the spec: \<open>length()\<close> of the buffer in seconds.\<close>
  "buf_length buf = seconds (endTime buf - startTime buf)"

definition real_record :: "Time \<Rightarrow> Time \<Rightarrow> real \<Rightarrow> QcParameter" where
  \<comment> \<open>an entry made from a record: start, end (microseconds), sampling frequency (Hz)\<close>
  "real_record s e fs =
     \<lparr>recordStartTime = s, recordEndTime = e, recordSamplingFrequency = fs, parameter = 0\<rparr>"

section \<open>QcPluginAvailability::availability\<close>

record loop_state =
  effectiveSamples :: int
  gapCount :: int
  overlapCount :: int
  lastTime :: Time

datatype step = Continue loop_state | Break loop_state

definition above_half_sample :: "real \<Rightarrow> real \<Rightarrow> bool" where
  \<comment> \<open>\<open>diff > (0.5 / fs)\<close>; for \<open>fs = 0\<close> the quotient is +infinity\<close>
  "above_half_sample diff fs \<longleftrightarrow> fs \<noteq> 0 \<and> diff > 0.5 / fs"

definition below_half_sample :: "real \<Rightarrow> real \<Rightarrow> bool" where
  \<comment> \<open>\<open>diff < (-0.5 / fs)\<close>; for \<open>fs = 0\<close> the quotient is -infinity\<close>
  "below_half_sample diff fs \<longleftrightarrow> fs \<noteq> 0 \<and> diff < - 0.5 / fs"

definition gaps_overlaps :: "QcParameter \<Rightarrow> loop_state \<Rightarrow> loop_state" where
  \<comment> \<open>lines 218-228: the two counters, then \<open>lastTime = qcp->recordEndTime\<close>\<close>
  "gaps_overlaps qcp st =
     (let fs = recordSamplingFrequency qcp;
          diff = seconds (recordStartTime qcp - lastTime st);
          checked = (lastTime st \<noteq> Time_default);
          g = (if checked \<and> above_half_sample diff fs then gapCount st + 1 else gapCount st);
          v = (if checked \<and> below_half_sample diff fs then overlapCount st + 1
               else overlapCount st)
      in st\<lparr>gapCount := g, overlapCount := v, lastTime := recordEndTime qcp\<rparr>)"

definition loop_body :: "TimeWindow \<Rightarrow> int \<Rightarrow> loop_state \<Rightarrow> QcParameter \<Rightarrow> step" where
  \<comment> \<open>lines 208-257: one pass of the loop over the buffer\<close>
  "loop_body tw estimatedSamples st qcp =
     (let fs = recordSamplingFrequency qcp in
      if fs = - 1 then Continue st
      else
        let tw2 = TimeWindow_new (recordStartTime qcp) (recordEndTime qcp);
            sampleCount = round_private (tw_length tw2 * fs);
            st1 = gaps_overlaps qcp st
        in if tw_contains tw tw2
             then Continue (st1\<lparr>effectiveSamples := effectiveSamples st1 + sampleCount\<rparr>)
           else if tw_contains tw2 tw
             then Break (st1\<lparr>effectiveSamples := estimatedSamples\<rparr>)
           else if tw_overlaps tw tw2 then
             (let dt = seconds (tw_startTime tw - recordStartTime qcp) in
              if dt > 0
                then Continue (st1\<lparr>effectiveSamples :=
                       effectiveSamples st1 + (sampleCount - round_private (dt * fs))\<rparr>)
              else
                let dt = seconds (recordEndTime qcp - tw_endTime tw) in
                if dt > 0
                  then Continue (st1\<lparr>effectiveSamples :=
                         effectiveSamples st1 + (sampleCount - round_private (dt * fs))\<rparr>)
                else Continue st1)
           else Continue st1)"

fun availability_loop :: "TimeWindow \<Rightarrow> int \<Rightarrow> loop_state \<Rightarrow> QcParameter list \<Rightarrow> loop_state" where
  "availability_loop tw estimatedSamples st [] = st"
| "availability_loop tw estimatedSamples st (qcp # rest) =
     (case loop_body tw estimatedSamples st qcp of
        Continue st' \<Rightarrow> availability_loop tw estimatedSamples st' rest
      | Break st' \<Rightarrow> st')"

definition loop_init :: loop_state where
  "loop_init = \<lparr>effectiveSamples = 0, gapCount = 0, overlapCount = 0, lastTime = Time_default\<rparr>"

definition buf_window :: "QcBuffer \<Rightarrow> TimeWindow" where
  \<comment> \<open>line 195: \<open>Core::TimeWindow tw(buf->startTime(), buf->endTime())\<close>\<close>
  "buf_window buf = TimeWindow_new (startTime buf) (endTime buf)"

definition estimated :: "QcBuffer \<Rightarrow> int" where
  \<comment> \<open>line 202\<close>
  "estimated buf =
     round_private (tw_length (buf_window buf) * recordSamplingFrequency (hd buf))"

definition availability :: "QcBuffer \<Rightarrow> double list" where
  "availability buf =
     (let returnVector = [Finite 0, Finite 0, Finite 0] in
      if buf = [] then returnVector
      else if recordSamplingFrequency (hd buf) = - 1 then returnVector
      else
        let estimatedSamples = estimated buf;
            st = availability_loop (buf_window buf) estimatedSamples loop_init buf;
            a = double_div (100 * real_of_int (effectiveSamples st))
                  (real_of_int estimatedSamples)
        in [if double_gt a 100 then Finite 100 else a,
            Finite (real_of_int (gapCount st)),
            Finite (real_of_int (overlapCount st))])"

section \<open>The plugin: report emission and the timeout task\<close>

record WaveformQuality =
  wq_waveformID :: string
  wq_creatorID :: string
  wq_created :: Time
  wq_start :: Time
  wq_end :: Time
  wq_type :: string
  wq_parameter :: string
  wq_value :: double
  wq_lowerUncertainty :: real
  wq_upperUncertainty :: real
  wq_windowLength :: real

text \<open>
  The state of one plugin instance. The system clock is the sequence of values that the
  successive calls of \<open>Core::Time::UTC()\<close> return (\<open>utc_clock\<close>) with the number of
  calls made so far (\<open>utc_reads\<close>); \<open>objects\<close> is what \<open>pushObject\<close> has handed
  downstream, oldest first. The creator id of the application and the mapping from stream
  id to waveform id are given by the host.
\<close>

record QcPlugin =
  streamID :: string
  plugin_name :: string
  parameterNames :: "string list"
  app_creatorID :: string
  getWaveformID :: "string \<Rightarrow> string"
  qcBuffer :: QcBuffer
  lastRecordEndTime :: Time
  utc_clock :: "nat \<Rightarrow> Time"
  utc_reads :: nat
  objects :: "WaveformQuality list"

definition QcPluginAvailability_new ::
  "string \<Rightarrow> string \<Rightarrow> (string \<Rightarrow> string) \<Rightarrow> (nat \<Rightarrow> Time) \<Rightarrow> QcPlugin" where
  \<comment> \<open>the constructor (lines 70-78), for a stream, a creator id, a waveform id mapping
      and a clock\<close>
  "QcPluginAvailability_new sid creator wid clock =
     \<lparr>streamID = sid, plugin_name = ''QcAvailability'',
      parameterNames = [''availability'', ''gaps count'', ''overlaps count''],
      app_creatorID = creator, getWaveformID = wid, qcBuffer = [],
      lastRecordEndTime = Time_default, utc_clock = clock, utc_reads = 0, objects = []\<rparr>"

definition UTC :: "QcPlugin \<Rightarrow> Time \<times> QcPlugin" where
  \<comment> \<open>\<open>Core::Time::UTC()\<close>: the next reading of the clock\<close>
  "UTC p = (utc_clock p (utc_reads p), p\<lparr>utc_reads := utc_reads p + 1\<rparr>)"

definition pushObject :: "WaveformQuality \<Rightarrow> QcPlugin \<Rightarrow> QcPlugin" where
  "pushObject obj p = p\<lparr>objects := objects p @ [obj]\<rparr>"

definition report_object :: "double list \<Rightarrow> QcBuffer \<Rightarrow> nat \<Rightarrow> QcPlugin \<Rightarrow> QcPlugin" where
  \<comment> \<open>one of the three blocks of lines 125-165, which differ in the index \<open>i\<close> only\<close>
  "report_object result buf i p =
     (let (now, p1) = UTC p;
          obj = \<lparr>wq_waveformID = getWaveformID p1 (streamID p1),
                 wq_creatorID = app_creatorID p1,
                 wq_created = now,
                 wq_start = startTime buf,
                 wq_end = endTime buf,
                 wq_type = ''report'',
                 wq_parameter = parameterNames p1 ! i,
                 wq_value = result ! i,
                 wq_lowerUncertainty = 0,
                 wq_upperUncertainty = 0,
                 wq_windowLength = buf_length buf\<rparr>
      in pushObject obj p1)"

definition generateReport :: "QcPlugin \<Rightarrow> QcBuffer \<Rightarrow> QcPlugin" where
  "generateReport p buf =
     (if buf = [] then p
      else
        let result = availability buf
        in report_object result buf 2 (report_object result buf 1 (report_object result buf 0 p)))"

definition sendMessages :: "Time \<Rightarrow> QcPlugin \<Rightarrow> QcPlugin" where
  \<comment> \<open>Modelled from the spec: \<open>sendMessages\<close> belongs to the plugin base class, which is
      declared outside this file; the timeout task appends the timeout entry and invokes
      report emission.\<close>
  "sendMessages t p = generateReport p (qcBuffer p)"

definition push_back :: "QcParameter \<Rightarrow> QcPlugin \<Rightarrow> QcPlugin" where
  \<comment> \<open>Modelled from the spec: \<open>push(streamID, entry)\<close> appends and never reorders.\<close>
  "push_back qcp p = p\<lparr>qcBuffer := qcBuffer p @ [qcp]\<rparr>"

definition timeoutTask :: "QcPlugin \<Rightarrow> QcPlugin" where
  "timeoutTask p =
     (if qcBuffer p = [] then p
      else
        let (now, p1) = UTC p;
            p2 = (if recordSamplingFrequency (last (qcBuffer p1)) \<noteq> - 1
                  then p1\<lparr>lastRecordEndTime := recordEndTime (last (qcBuffer p1))\<rparr>
                  else p1);
            qcp = \<lparr>recordStartTime = lastRecordEndTime p2,
                   recordEndTime = now,
                   recordSamplingFrequency = - 1,
                   parameter = seconds (now - lastRecordEndTime p2)\<rparr>
        in sendMessages Time_default (push_back qcp p2))"

section \<open>Transformations of a buffer\<close>

definition record_window :: "QcParameter \<Rightarrow> TimeWindow" where
  \<comment> \<open>line 215: the window \<open>tw2\<close> of an entry\<close>
  "record_window qcp = TimeWindow_new (recordStartTime qcp) (recordEndTime qcp)"



definition timeout_entry :: "Time \<Rightarrow> Time \<Rightarrow> QcParameter" where
  \<comment> \<open>the entry that the timeout task builds for an anchor and a clock reading\<close>
  "timeout_entry s e =
     \<lparr>recordStartTime = s, recordEndTime = e, recordSamplingFrequency = - 1,
      parameter = seconds (e - s)\<rparr>"




definition anchor :: "QcPlugin \<Rightarrow> Time" where
  \<comment> \<open>the value of \<open>_lastRecordEndTime\<close> after lines 96-98 of the timeout task\<close>
  "anchor p =
     (if recordSamplingFrequency (last (qcBuffer p)) \<noteq> - 1
      then recordEndTime (last (qcBuffer p)) else lastRecordEndTime p)"

definition example_plugin :: QcPlugin where
  \<comment> \<open>a plugin whose buffer holds one record of 10 s at 100 Hz, 30 s before the first
      reading of a clock that advances by one microsecond at each reading\<close>
  "example_plugin =
     (QcPluginAvailability_new ''GE.APE..BHZ'' ''scqc'' id (\<lambda>n. 40000000 + int n))
       \<lparr>qcBuffer := [real_record 0 10000000 100]\<rparr>"

definition valid_entry :: "QcParameter \<Rightarrow> bool" where
  \<comment> \<open>the invariant of an entry: a timeout marker, or a positive sampling frequency
      and an end after the start\<close>
  "valid_entry e \<longleftrightarrow>
     recordSamplingFrequency e = - 1 \<or>
     (0 < recordSamplingFrequency e \<and> recordStartTime e < recordEndTime e)"

section \<open>Evaluation\<close>

lemmas eval_defs =
  availability_def estimated_def buf_window_def loop_init_def loop_body_def gaps_overlaps_def
  above_half_sample_def below_half_sample_def startTime_def endTime_def real_record_def
  tw_length_def tw_contains_def tw_overlaps_def
  TimeWindow_new_def seconds_def Time_default_def double_div_def Let_def

lemmas plugin_defs =
  example_plugin_def QcPluginAvailability_new_def real_record_def timeout_entry_def

section \<open>Rounding to the nearest double\<close>

lemma round_even_int: "round_even (real_of_int k) = k"
  by (simp add: round_even_def)

lemma round_even_bounds: "\<lfloor>r\<rfloor> \<le> round_even r \<and> round_even r \<le> \<lfloor>r\<rfloor> + 1"
  by (simp add: round_even_def Let_def)

lemma round_even_mono:
  assumes "r \<le> s"
  shows "round_even r \<le> round_even s"
proof (cases "\<lfloor>r\<rfloor> = \<lfloor>s\<rfloor>")
  case True
  then show ?thesis using assms by (auto simp: round_even_def Let_def)
next
  case False
  then have "\<lfloor>r\<rfloor> < \<lfloor>s\<rfloor>" using assms floor_mono [of r s] by linarith
  then show ?thesis using round_even_bounds [of r] round_even_bounds [of s] by linarith
qed

lemma binade_bounds:
  assumes "x \<noteq> 0"
  shows "2 powr real_of_int (binade x) \<le> \<bar>x\<bar>" and "\<bar>x\<bar> < 2 powr (real_of_int (binade x) + 1)"
  using floor_log_eq_powr_iff [of "\<bar>x\<bar>" 2 "binade x"] assms
  by (simp_all add: binade_def)

lemma binade_eqI:
  assumes "2 powr real_of_int k \<le> \<bar>x\<bar>" and "\<bar>x\<bar> < 2 powr (real_of_int k + 1)"
  shows "binade x = k"
proof -
  have "0 < \<bar>x\<bar>" using assms(1) powr_gt_zero [of 2 "real_of_int k"] by linarith
  then show ?thesis
    using floor_log_eq_powr_iff [of "\<bar>x\<bar>" 2 k] assms by (simp add: binade_def)
qed

lemma to_double_eval:
  assumes "2 powr real_of_int k \<le> \<bar>x\<bar>" and "\<bar>x\<bar> < 2 powr (real_of_int k + 1)"
  shows "to_double x
           = real_of_int (round_even (x / 2 powr (real_of_int k - 52))) * 2 powr (real_of_int k - 52)"
proof -
  have "x \<noteq> 0" using assms(1) powr_gt_zero [of 2 "real_of_int k"] by auto
  then show ?thesis using binade_eqI [OF assms] by (simp add: to_double_def Let_def)
qed

lemma two_powr_int: "0 \<le> j \<Longrightarrow> 2 powr real_of_int j = real_of_int (2 ^ nat j)"
  by (simp add: powr_real_of_int)

lemma dyadic_exact:
  assumes m: "\<bar>m\<bar> < 2 ^ 53"
  shows "to_double (real_of_int m * 2 powr real_of_int k) = real_of_int m * 2 powr real_of_int k"
proof (cases "m = 0")
  case True
  then show ?thesis by (simp add: to_double_def)
next
  case False
  let ?x = "real_of_int m * 2 powr real_of_int k"
  let ?e = "binade ?x"
  have x0: "?x \<noteq> 0" using False by simp
  have absx: "\<bar>?x\<bar> = real_of_int \<bar>m\<bar> * 2 powr real_of_int k"
    by (simp add: abs_mult)
  have "real_of_int \<bar>m\<bar> < 2 powr 53" using m
    by (metis of_int_less_iff of_int_numeral of_int_power powr_numeral zero_le_numeral)
  then have "\<bar>?x\<bar> < 2 powr 53 * 2 powr real_of_int k"
    unfolding absx by (simp add: mult_strict_right_mono)
  then have "2 powr real_of_int ?e < 2 powr (53 + real_of_int k)"
    using binade_bounds(1) [OF x0] by (simp add: powr_add)
  then have "real_of_int ?e < 53 + real_of_int k" by simp
  then have j: "0 \<le> k - ?e + 52" by linarith
  have "?x / 2 powr (real_of_int ?e - 52)
          = real_of_int m * 2 powr (real_of_int k - (real_of_int ?e - 52))"
    by (simp add: powr_diff)
  also have "real_of_int k - (real_of_int ?e - 52) = real_of_int (k - ?e + 52)" by simp
  also have "real_of_int m * 2 powr real_of_int (k - ?e + 52)
               = real_of_int (m * 2 ^ nat (k - ?e + 52))"
    using two_powr_int [OF j] by simp
  finally have q: "?x / 2 powr (real_of_int ?e - 52) = real_of_int (m * 2 ^ nat (k - ?e + 52))" .
  have "to_double ?x = real_of_int (m * 2 ^ nat (k - ?e + 52)) * 2 powr (real_of_int ?e - 52)"
    using x0 unfolding to_double_def Let_def q round_even_int by simp
  also have "\<dots> = ?x / 2 powr (real_of_int ?e - 52) * 2 powr (real_of_int ?e - 52)"
    using q by simp
  also have "\<dots> = ?x" by simp
  finally show ?thesis .
qed

lemma to_double_in_binade:
  assumes "0 < x"
  shows "2 powr real_of_int (binade x) \<le> to_double x"
    and "to_double x \<le> 2 powr (real_of_int (binade x) + 1)"
proof -
  let ?e = "real_of_int (binade x)"
  let ?u = "2 powr (?e - 52)"
  have x0: "x \<noteq> 0" using assms by simp
  have u: "0 < ?u" by simp
  have lo: "2 powr ?e \<le> x" and hi: "x < 2 powr (?e + 1)"
    using binade_bounds [OF x0] assms by simp_all
  have e1: "2 powr ?e = real_of_int (2 ^ 52) * ?u" and e2: "2 powr (?e + 1) = real_of_int (2 ^ 53) * ?u"
    by (simp_all add: powr_diff powr_add)
  have "real_of_int (2 ^ 52) \<le> x / ?u" using lo u unfolding e1 by (simp add: pos_le_divide_eq)
  then have a: "2 ^ 52 \<le> round_even (x / ?u)"
    using round_even_mono [of "real_of_int (2 ^ 52)" "x / ?u"] unfolding round_even_int by simp
  have "x / ?u \<le> real_of_int (2 ^ 53)" using hi u unfolding e2 by (simp add: pos_divide_le_eq)
  then have b: "round_even (x / ?u) \<le> 2 ^ 53"
    using round_even_mono [of "x / ?u" "real_of_int (2 ^ 53)"] unfolding round_even_int by simp
  have td: "to_double x = real_of_int (round_even (x / ?u)) * ?u"
    using x0 by (simp add: to_double_def Let_def)
  have "real_of_int (2 ^ 52) * ?u \<le> real_of_int (round_even (x / ?u)) * ?u"
    using a u by (intro mult_right_mono) simp_all
  then show "2 powr ?e \<le> to_double x" unfolding td e1 .
  have "real_of_int (round_even (x / ?u)) * ?u \<le> real_of_int (2 ^ 53) * ?u"
    using b u by (intro mult_right_mono) simp_all
  then show "to_double x \<le> 2 powr (?e + 1)" unfolding td e2 .
qed

lemma binade_mono:
  assumes "0 < a" and "a \<le> b"
  shows "binade a \<le> binade b"
  using assms by (simp add: binade_def floor_mono)

lemma to_double_mono:
  assumes "0 \<le> a" and "a \<le> b"
  shows "to_double a \<le> to_double b"
proof (cases "a = 0")
  case True
  show ?thesis
  proof (cases "b = 0")
    case True
    then show ?thesis using \<open>a = 0\<close> by simp
  next
    case False
    then have "0 < b" using assms True by simp
    then have "0 < to_double b"
      using to_double_in_binade(1) [of b] powr_gt_zero [of 2 "real_of_int (binade b)"] by linarith
    then show ?thesis using True by (simp add: to_double_def)
  qed
next
  case False
  then have a: "0 < a" and b: "0 < b" using assms by simp_all
  show ?thesis
  proof (cases "binade a = binade b")
    case True
    let ?u = "2 powr (real_of_int (binade b) - 52)"
    have "a / ?u \<le> b / ?u" using assms(2) by (simp add: divide_right_mono)
    then have "real_of_int (round_even (a / ?u)) * ?u \<le> real_of_int (round_even (b / ?u)) * ?u"
      using round_even_mono by (intro mult_right_mono) simp_all
    then show ?thesis using a b True by (simp add: to_double_def Let_def)
  next
    case False
    then have "binade a + 1 \<le> binade b" using binade_mono [OF a assms(2)] by simp
    then have "real_of_int (binade a) + 1 \<le> real_of_int (binade b)" by linarith
    then have "2 powr (real_of_int (binade a) + 1) \<le> 2 powr real_of_int (binade b)"
      by simp
    then show ?thesis
      using to_double_in_binade(2) [OF a] to_double_in_binade(1) [OF b] by linarith
  qed
qed

lemma to_double_int: "\<bar>n\<bar> < 2 ^ 53 \<Longrightarrow> to_double (real_of_int n) = real_of_int n"
  using dyadic_exact [of n 0] by simp

lemma to_double_sixteenths:
  assumes "\<bar>m\<bar> < 2 ^ 53"
  shows "to_double (real_of_int m / 16) = real_of_int m / 16"
proof -
  have p: "(2::real) powr real_of_int (- 4) = 1 / 16" by (simp add: powr_minus)
  have "to_double (real_of_int m * (1 / 16)) = real_of_int m * (1 / 16)"
    using dyadic_exact [OF assms, of "- 4"] unfolding p .
  then show ?thesis by simp
qed

lemma round_private_between:
  assumes lo: "real_of_int n - 1 / 2 \<le> x" and hi: "x \<le> real_of_int n + 7 / 16"
    and n0: "0 \<le> n" and n1: "n < 2147483648"
  shows "round_private x = n"
proof -
  let ?y = "x + 1 / 2"
  have b: "\<bar>n\<bar> < 2 ^ 53" "\<bar>16 * n + 15\<bar> < 2 ^ 53" using n0 n1 by simp_all
  have "to_double (real_of_int n) \<le> to_double ?y"
    using lo n0 by (intro to_double_mono) simp_all
  then have l: "real_of_int n \<le> to_double ?y" using to_double_int [OF b(1)] by simp
  have eq: "real_of_int (16 * n + 15) / 16 = real_of_int n + 15 / 16" by simp
  have "to_double (real_of_int (16 * n + 15) / 16) = real_of_int (16 * n + 15) / 16"
    by (rule to_double_sixteenths [OF b(2)])
  then have "to_double (real_of_int n + 15 / 16) = real_of_int n + 15 / 16"
    by (simp only: eq)
  moreover have "to_double ?y \<le> to_double (real_of_int n + 15 / 16)"
    using lo hi n0 by (intro to_double_mono) simp_all
  ultimately have u: "to_double ?y \<le> real_of_int n + 15 / 16" by simp
  have "\<lfloor>to_double ?y\<rfloor> = n" using l u by (intro floor_unique) simp_all
  moreover have "0 \<le> to_double ?y" using l n0 by simp
  ultimately show ?thesis using n0 n1 by (simp add: round_private_def double_to_int_def)
qed

lemma dyadic_exact_div:
  assumes "\<bar>m\<bar> < 2 ^ 53"
  shows "to_double (real_of_int m / 2 ^ d) = real_of_int m / 2 ^ d"
proof -
  have p: "(2::real) powr real_of_int (- int d) = 1 / 2 ^ d"
    by (simp add: powr_minus powr_realpow inverse_eq_divide)
  have "to_double (real_of_int m * (1 / 2 ^ d)) = real_of_int m * (1 / 2 ^ d)"
    using dyadic_exact [OF assms, of "- int d"] unfolding p .
  then show ?thesis by simp
qed

lemma double_grid:
  assumes "to_double x = x" and "2 powr real_of_int e \<le> \<bar>x\<bar>"
    and "\<bar>x\<bar> < 2 powr (real_of_int e + 1)"
  shows "\<exists>m. x = real_of_int m * 2 powr (real_of_int e - 52)"
  using to_double_eval [OF assms(2,3)] assms(1) by metis

lemma add_half_exact:
  assumes dbl: "to_double x = x" and x1: "1 \<le> x" and e: "int j = binade x" and j: "j \<le> 51"
    and y: "x + 1 / 2 < 2 ^ (j + 1)"
  shows "to_double (x + 1 / 2) = x + 1 / 2"
proof -
  have x0: "x \<noteq> 0" using x1 by simp
  have b: "2 powr real_of_int (int j) \<le> \<bar>x\<bar>" "\<bar>x\<bar> < 2 powr (real_of_int (int j) + 1)"
    using binade_bounds [OF x0] e by simp_all
  obtain m where m: "x = real_of_int m * 2 powr (real_of_int (int j) - 52)"
    using double_grid [OF dbl b] by blast
  define d where "d = 52 - j"
  have d1: "1 \<le> d" and jd: "j + d = 52" using j by (simp_all add: d_def)
  have "real_of_int (int j) - 52 = real_of_int (- int d)" using jd by simp
  then have "(2::real) powr (real_of_int (int j) - 52) = 1 / 2 ^ d"
    by (simp add: powr_minus powr_realpow inverse_eq_divide)
  then have xm: "x = real_of_int m / 2 ^ d" using m by simp
  have half: "(1::real) / 2 = real_of_int (2 ^ (d - 1)) / 2 ^ d"
    using d1 by (cases d) simp_all
  have ym: "x + 1 / 2 = real_of_int (m + 2 ^ (d - 1)) / 2 ^ d"
    using xm half by (simp add: add_divide_distrib)
  have "0 < x" using x1 by linarith
  then have "0 < real_of_int m / 2 ^ d" by (simp only: xm [symmetric])
  then have "0 < real_of_int m" by (simp add: zero_less_divide_iff)
  then have mpos: "0 < m" by simp
  have "real_of_int (m + 2 ^ (d - 1)) / 2 ^ d < 2 ^ (j + 1)" using y ym by simp
  then have "real_of_int (m + 2 ^ (d - 1)) < 2 ^ (j + 1) * 2 ^ d"
    by (simp add: pos_divide_less_eq)
  also have "(2::real) ^ (j + 1) * 2 ^ d = 2 ^ 53"
    using jd by (simp add: power_add [symmetric] add.commute add.left_commute)
  finally have "m + 2 ^ (d - 1) < 2 ^ 53"
    by (metis of_int_less_iff of_int_numeral of_int_power)
  then have "\<bar>m + 2 ^ (d - 1)\<bar> < 2 ^ 53" using mpos by simp
  then show ?thesis unfolding ym by (rule dyadic_exact_div)
qed

lemma binade_one: "binade 1 = 0"
  by (rule binade_eqI) simp_all

lemma quarter_to_half_grid:
  assumes dbl: "to_double x = x" and lo: "1 / 4 \<le> x" and hi: "x < 1 / 2"
  shows "\<exists>m. x = real_of_int m / 2 ^ 54"
proof -
  have p: "(2::real) powr real_of_int (- 2) = 1 / 4" "(2::real) powr (real_of_int (- 2) + 1) = 1 / 2"
    "(2::real) powr (real_of_int (- 2) - 52) = 1 / 2 ^ 54"
    by (simp_all add: powr_minus)
  have "2 powr real_of_int (- 2) \<le> \<bar>x\<bar>" "\<bar>x\<bar> < 2 powr (real_of_int (- 2) + 1)"
    unfolding p using lo hi by simp_all
  from double_grid [OF dbl this] obtain m
    where "x = real_of_int m * 2 powr (real_of_int (- 2) - 52)" by blast
  then have "x = real_of_int m / 2 ^ 54" unfolding p by simp
  then show ?thesis by blast
qed

lemma sum_below_next_integer:
  assumes dbl: "to_double x = x" and lo: "- 1 / 2 \<le> x" and hi: "x + 1 / 2 < 2147483648"
    and ne: "x \<noteq> 1 / 2 - 1 / 2 ^ 54"
  shows "to_double (x + 1 / 2) < real_of_int \<lfloor>x + 1 / 2\<rfloor> + 1"
proof -
  define y where "y = x + 1 / 2"
  define n where "n = \<lfloor>y\<rfloor>"
  have y0: "0 \<le> y" using lo by (simp add: y_def)
  have n0: "0 \<le> n" using y0 by (simp add: n_def)
  have ny: "real_of_int n \<le> y" and yn: "y < real_of_int n + 1" by (simp_all add: n_def)
  have "to_double y < real_of_int n + 1"
  proof (cases "y \<le> real_of_int n + 1 / 2")
    case True
    have "\<bar>2 * n + 1\<bar> < 2 ^ 53" using n0 ny hi by (simp add: y_def)
    then have "to_double (real_of_int (2 * n + 1) / 2 ^ 1) = real_of_int (2 * n + 1) / 2 ^ 1"
      by (rule dyadic_exact_div)
    then have "to_double (real_of_int n + 1 / 2) = real_of_int n + 1 / 2"
      by (simp add: add_divide_distrib)
    moreover have "to_double y \<le> to_double (real_of_int n + 1 / 2)"
      using y0 True by (rule to_double_mono)
    ultimately show ?thesis by simp
  next
    case False
    then have xn: "real_of_int n < x" by (simp add: y_def)
    have xn': "x < real_of_int n + 1 / 2" using yn by (simp add: y_def)
    show ?thesis
    proof (cases "n = 0")
      case True
      have x0: "0 < x" and xh: "x < 1 / 2" using xn xn' True by simp_all
      show ?thesis
      proof (cases "x < 1 / 4")
        case True
        have "to_double (real_of_int 3 / 2 ^ 2) = real_of_int 3 / 2 ^ 2"
          by (rule dyadic_exact_div) simp
        moreover have "to_double y \<le> to_double (real_of_int 3 / 2 ^ 2)"
          using y0 True by (intro to_double_mono) (simp_all add: y_def)
        ultimately show ?thesis using \<open>n = 0\<close> by simp
      next
        case False
        then obtain m where m: "x = real_of_int m / 2 ^ 54"
          using quarter_to_half_grid [OF dbl _ xh] by auto
        have "real_of_int m < 2 ^ 53" using xh unfolding m by simp
        then have m1: "m < 2 ^ 53" by (metis of_int_less_iff of_int_numeral of_int_power)
        have "m \<noteq> 2 ^ 53 - 1"
        proof
          assume "m = 2 ^ 53 - 1"
          then have "x = 1 / 2 - 1 / 2 ^ 54" unfolding m by simp
          then show False using ne by simp
        qed
        then have "m \<le> 2 ^ 53 - 2" using m1 by simp
        then have "real_of_int m \<le> real_of_int (2 ^ 53 - 2)" by (simp only: of_int_le_iff)
        then have "x \<le> real_of_int (2 ^ 53 - 2) / 2 ^ 54"
          unfolding m by (simp add: divide_right_mono)
        then have yb: "y \<le> real_of_int (2 ^ 53 - 1) / 2 ^ 53" by (simp add: y_def)
        have "to_double (real_of_int (2 ^ 53 - 1) / 2 ^ 53) = real_of_int (2 ^ 53 - 1) / 2 ^ 53"
          by (rule dyadic_exact_div) simp
        moreover have "to_double y \<le> to_double (real_of_int (2 ^ 53 - 1) / 2 ^ 53)"
          using y0 yb by (rule to_double_mono)
        ultimately show ?thesis using \<open>n = 0\<close> by simp
      qed
    next
      case False
      then have n1: "1 \<le> n" using n0 by simp
      then have x1: "1 \<le> x" using xn by linarith
      have xnz: "x \<noteq> 0" using x1 by simp
      have e0: "0 \<le> binade x" using binade_mono [of 1 x] x1 binade_one by simp
      define j where "j = nat (binade x)"
      have j: "int j = binade x" using e0 by (simp add: j_def)
      have lo2: "2 ^ j \<le> x" and hi2: "x < 2 ^ (j + 1)"
        using binade_bounds [OF xnz] x1 j [symmetric] by (simp_all add: powr_realpow powr_add)
      have "(2::real) ^ j < 2147483648" using lo2 hi by linarith
      then have "(2::real) ^ j < 2 ^ 31" by simp
      then have j30: "j < 31" by (simp only: power_strict_increasing_iff one_less_numeral_iff semiring_norm)
      have "real_of_int n < real_of_int (2 ^ (j + 1))" using xn hi2 by simp
      then have "n < 2 ^ (j + 1)" by (simp only: of_int_less_iff)
      then have "n + 1 \<le> 2 ^ (j + 1)" by simp
      then have "real_of_int (n + 1) \<le> real_of_int (2 ^ (j + 1))" by (simp only: of_int_le_iff)
      then have "x + 1 / 2 < 2 ^ (j + 1)" using xn' by simp
      then have "to_double (x + 1 / 2) = x + 1 / 2"
        using add_half_exact [OF dbl x1 j] j30 by simp
      then show ?thesis using yn by (simp add: y_def)
    qed
  qed
  then show ?thesis by (simp add: y_def n_def)
qed

lemma to_double_below_one:
  assumes "1 / 2 \<le> \<bar>x\<bar>" and "\<bar>x\<bar> < 1"
  shows "to_double x = real_of_int (round_even (x * 2 ^ 53)) / 2 ^ 53"
proof -
  have p: "(2::real) powr real_of_int (- 1) = 1 / 2" "(2::real) powr (real_of_int (- 1) + 1) = 1"
    "(2::real) powr (real_of_int (- 1) - 52) = 1 / 2 ^ 53"
    by (simp_all add: powr_minus)
  have "2 powr real_of_int (- 1) \<le> \<bar>x\<bar>" "\<bar>x\<bar> < 2 powr (real_of_int (- 1) + 1)"
    unfolding p using assms by simp_all
  from to_double_eval [OF this] show ?thesis unfolding p by simp
qed

section \<open>The rounding helper\<close>

text \<open>
  C6 (as amended). The helper adds one half in double arithmetic and converts the sum to a
  32-bit \<open>int\<close>, which discards the fractional part. For every double \<open>x\<close> with
  \<open>-0.5 \<le> x\<close> and \<open>x + 0.5 < 2^31\<close>, other than \<open>x = 0.5 - 2^-54\<close>
  (0.49999999999999994, whose sum with 0.5 rounds to 1), this is half-up rounding:
  \<open>round(x) = floor(x + 0.5)\<close>.
\<close>

theorem round_private_half_up:
  assumes dbl: "to_double x = x" and lo: "- 1 / 2 \<le> x" and hi: "x + 1 / 2 < 2147483648"
    and ne: "x \<noteq> 1 / 2 - 1 / 2 ^ 54"
  shows "round_private x = \<lfloor>x + 1 / 2\<rfloor>"
proof -
  let ?y = "x + 1 / 2" and ?n = "\<lfloor>x + 1 / 2\<rfloor>"
  have y0: "0 \<le> ?y" using lo by simp
  then have n0: "0 \<le> ?n" by simp
  have n1: "?n < 2147483648" using hi by (simp add: floor_less_iff)
  have "to_double (real_of_int ?n) \<le> to_double ?y"
    using n0 by (intro to_double_mono) simp_all
  moreover have "to_double (real_of_int ?n) = real_of_int ?n"
    using n0 n1 by (intro to_double_int) simp
  ultimately have l: "real_of_int ?n \<le> to_double ?y" by simp
  have u: "to_double ?y < real_of_int ?n + 1"
    by (rule sum_below_next_integer [OF assms])
  have "\<lfloor>to_double ?y\<rfloor> = ?n" using l u by (intro floor_unique) simp_all
  moreover have "0 \<le> to_double ?y" using l n0 by linarith
  ultimately show ?thesis using n0 n1 by (simp add: round_private_def double_to_int_def)
qed

theorem round_private_half_up_witness:
  "to_double (5 / 2) = 5 / 2 \<and> round_private (5 / 2) = 3"
  using round_private_half_up [of "5 / 2"] dyadic_exact_div [of 5 1] by simp

text \<open>
  Counterexample to C6 as stated (every real input): at \<open>x = -1.2\<close> the helper returns
  0, while \<open>floor(x + 0.5) = floor(-0.7) = -1\<close>.
\<close>

theorem round_private_negative:
  "round_private (- 6 / 5) = 0 \<and> \<lfloor>- 6 / 5 + 1 / 2 :: real\<rfloor> = - 1"
  using to_double_below_one [of "- 7 / 10"]
  by (simp add: round_private_def double_to_int_def round_even_def Let_def)

text \<open>
  The two other bounds of the amended statement are needed as well: the double below one
  half is rounded to 1, and a sum of \<open>2^31\<close> or more does not fit the \<open>int\<close>.
\<close>

lemma round_private_below_half:
  "to_double (1 / 2 - 1 / 2 ^ 54) = 1 / 2 - 1 / 2 ^ 54 \<and>
   round_private (1 / 2 - 1 / 2 ^ 54) = 1 \<and> \<lfloor>1 / 2 - 1 / 2 ^ 54 + 1 / 2 :: real\<rfloor> = 0"
  using to_double_below_one [of "1 - 1 / 2 ^ 54"] dyadic_exact_div [of "2 ^ 53 - 1" 54]
  by (simp add: round_private_def double_to_int_def round_even_def Let_def)

lemma round_private_out_of_range:
  "to_double 3000000000 = 3000000000 \<and> round_private 3000000000 = - 2147483648"
  using dyadic_exact_div [of 6000000001 1] to_double_int [of 3000000000]
  by (simp add: round_private_def double_to_int_def)

section \<open>The evaluator on concrete buffers\<close>

text \<open>
  C1. For the buffer of the two real records (0 s, 1 s, 100 Hz) and (1.02 s, 2 s, 100 Hz)
  the evaluator returns availability 99, gap count 1 and overlap count 0.
\<close>

theorem availability_one_gap:
  "availability [real_record 0 1000000 100, real_record 1020000 2000000 100]
     = [Finite 99, Finite 1, Finite 0]"
  using round_private_between [of 200 200] round_private_between [of 100 100]
    round_private_between [of 98 98]
  by (simp add: eval_defs)

text \<open>
  C2. The claim: when the estimated sample count is 0, the evaluator returns (0, 0, 0)
  without dividing. The evaluator has no such test. For the records (10 s, 20 s, 100 Hz)
  and (0 s, 10 s, 100 Hz), in this order, the analysis window [10 s, 10 s) is empty, the
  estimated count is 0, the first record covers the window, so the effective count is 0 too,
  and line 260 divides 0.0 by 0: the availability returned is NaN. For the records
  (0 s, 1 s, 0.01 Hz) and (5 s, 6 s, 100 Hz) the estimated count is \<open>round(0.06) = 0\<close>,
  the effective count is 100, the quotient is +infinity and is cut to 100: the result is
  (100, 1, 0).
\<close>

theorem availability_estimated_zero_divides:
  "estimated [real_record 10000000 20000000 100, real_record 0 10000000 100] = 0 \<and>
   availability [real_record 10000000 20000000 100, real_record 0 10000000 100]
     = [NaN, Finite 0, Finite 0] \<and>
   estimated [real_record 0 1000000 (1 / 100), real_record 5000000 6000000 100] = 0 \<and>
   availability [real_record 0 1000000 (1 / 100), real_record 5000000 6000000 100]
     = [Finite 100, Finite 1, Finite 0]"
  using round_private_between [of 0 0] round_private_between [of 0 "3 / 50"]
    round_private_between [of 0 "1 / 100"] round_private_between [of 100 100]
  by (simp add: eval_defs)

text \<open>
  C3. The claim: for every valid buffer with a real front entry the availability lies
  between 0 and 100. The single record (0 s, 0.004 s, 100 Hz) has a positive rate and an
  end after its start. Its analysis window is [0 s, 0.004 s), the estimated count is
  \<open>round(0.4) = 0\<close>, the effective count is 0 as well, and the availability returned is
  0.0 / 0 = NaN, which is in no range.
\<close>

theorem availability_not_a_number:
  "valid_entry (real_record 0 4000 100) \<and>
   availability [real_record 0 4000 100] ! 0 = NaN"
  using round_private_between [of 0 "2 / 5"]
  by (simp add: eval_defs valid_entry_def)

section \<open>Report emission\<close>

lemma report_object_eq:
  "report_object result buf i p =
     p\<lparr>utc_reads := utc_reads p + 1,
       objects := objects p @
         [\<lparr>wq_waveformID = getWaveformID p (streamID p),
           wq_creatorID = app_creatorID p,
           wq_created = utc_clock p (utc_reads p),
           wq_start = startTime buf,
           wq_end = endTime buf,
           wq_type = ''report'',
           wq_parameter = parameterNames p ! i,
           wq_value = result ! i,
           wq_lowerUncertainty = 0,
           wq_upperUncertainty = 0,
           wq_windowLength = buf_length buf\<rparr>]\<rparr>"
  by (simp add: report_object_def UTC_def pushObject_def)

lemma generateReport_empty: "generateReport p [] = p"
  by (simp add: generateReport_def)

lemma generateReport_nonempty:
  "buf \<noteq> [] \<Longrightarrow>
   generateReport p buf =
     report_object (availability buf) buf 2
       (report_object (availability buf) buf 1 (report_object (availability buf) buf 0 p))"
  by (simp add: generateReport_def Let_def)

lemma generateReport_keeps:
  "qcBuffer (generateReport p buf) = qcBuffer p"
  "lastRecordEndTime (generateReport p buf) = lastRecordEndTime p"
  by (cases "buf = []"; simp add: generateReport_nonempty generateReport_empty report_object_eq)+

lemma availability_zeros:
  "buf = [] \<or> recordSamplingFrequency (hd buf) = - 1 \<Longrightarrow>
   availability buf = [Finite 0, Finite 0, Finite 0]"
  by (auto simp: availability_def Let_def)

text \<open>
  C4 (as amended). On an empty buffer the evaluator returns (0, 0, 0) and report emission
  pushes nothing. On a non-empty buffer whose front entry is a timeout marker the evaluator
  returns (0, 0, 0) as well, and report emission pushes its three reports, with the values
  0, 0 and 0.
\<close>

theorem zeros_for_empty_or_timeout_front:
  assumes "buf = [] \<or> recordSamplingFrequency (hd buf) = - 1"
  shows "availability buf = [Finite 0, Finite 0, Finite 0] \<and>
         (if buf = [] then objects (generateReport p buf) = objects p
          else map wq_value (drop (length (objects p)) (objects (generateReport p buf)))
                 = [Finite 0, Finite 0, Finite 0])"
  using assms availability_zeros [of buf]
  by (auto simp: generateReport_empty generateReport_nonempty report_object_eq)

theorem zeros_for_empty_or_timeout_front_witness:
  "recordSamplingFrequency (hd [timeout_entry 0 10000000]) = - 1 \<and>
   availability [timeout_entry 0 10000000] = [Finite 0, Finite 0, Finite 0] \<and>
   map wq_value (objects (generateReport example_plugin [timeout_entry 0 10000000]))
     = [Finite 0, Finite 0, Finite 0]"
  using zeros_for_empty_or_timeout_front [of "[timeout_entry 0 10000000]" example_plugin]
  by (simp add: plugin_defs)

text \<open>
  Counterexample to C4 as stated (no report when the front entry is a timeout marker):
  for a buffer that holds one timeout entry, report emission pushes three reports.
\<close>

theorem timeout_front_emits_reports:
  "length (objects (generateReport example_plugin [timeout_entry 0 10000000])) = 3"
  by (simp add: plugin_defs generateReport_nonempty report_object_eq)

text \<open>
  C8 (as amended). Every report emission on a non-empty buffer, by a plugin with the
  parameter names of the constructor, pushes exactly three reports, in the order
  availability, gaps count, overlaps count. The three carry the same start (the buffer's
  start time), end (the buffer's end time), window length (the buffer's length), type
  "report", and uncertainties 0. Each carries as creation time its own reading of the
  clock: the three readings are successive ones, not one shared value.
\<close>

theorem generateReport_emits_triple:
  assumes "buf \<noteq> []"
    and "parameterNames p = [''availability'', ''gaps count'', ''overlaps count'']"
  shows "objects (generateReport p buf) =
           objects p @
           map (\<lambda>(i, nm).
                  \<lparr>wq_waveformID = getWaveformID p (streamID p),
                   wq_creatorID = app_creatorID p,
                   wq_created = utc_clock p (utc_reads p + i),
                   wq_start = startTime buf,
                   wq_end = endTime buf,
                   wq_type = ''report'',
                   wq_parameter = nm,
                   wq_value = availability buf ! i,
                   wq_lowerUncertainty = 0,
                   wq_upperUncertainty = 0,
                   wq_windowLength = buf_length buf\<rparr>)
               [(0, ''availability''), (1, ''gaps count''), (2, ''overlaps count'')]"
  using assms by (simp add: generateReport_nonempty report_object_eq)

theorem generateReport_emits_triple_witness:
  "qcBuffer example_plugin \<noteq> [] \<and>
   parameterNames example_plugin = [''availability'', ''gaps count'', ''overlaps count''] \<and>
   map wq_parameter (objects (generateReport example_plugin (qcBuffer example_plugin)))
     = [''availability'', ''gaps count'', ''overlaps count''] \<and>
   map wq_windowLength (objects (generateReport example_plugin (qcBuffer example_plugin)))
     = [10, 10, 10]"
  using generateReport_emits_triple [of "qcBuffer example_plugin" example_plugin]
  by (simp add: plugin_defs buf_length_def startTime_def endTime_def seconds_def)

text \<open>
  Counterexample to C8 as stated (an identical creation time): with a clock that advances
  between two readings, the first and the second report of one emission carry different
  creation times.
\<close>

theorem created_differs_within_triple:
  "wq_created (objects (generateReport example_plugin (qcBuffer example_plugin)) ! 0)
     \<noteq> wq_created (objects (generateReport example_plugin (qcBuffer example_plugin)) ! 1)"
  by (simp add: plugin_defs generateReport_nonempty report_object_eq)

section \<open>The timeout task\<close>

lemma timeoutTask_nonempty:
  assumes "qcBuffer p \<noteq> []"
  shows "qcBuffer (timeoutTask p) =
           qcBuffer p @ [timeout_entry (anchor p) (utc_clock p (utc_reads p))]"
    and "lastRecordEndTime (timeoutTask p) = anchor p"
  using assms
  by (simp_all add: timeoutTask_def UTC_def sendMessages_def push_back_def anchor_def
        timeout_entry_def generateReport_keeps Let_def)

lemma timeoutTask_iterated:
  assumes "qcBuffer p \<noteq> []"
  shows "\<exists>ts. qcBuffer ((timeoutTask ^^ Suc n) p) = qcBuffer p @ ts \<and> length ts = Suc n \<and>
           (\<forall>e\<in>set ts. recordSamplingFrequency e = - 1 \<and> recordStartTime e = anchor p) \<and>
           lastRecordEndTime ((timeoutTask ^^ Suc n) p) = anchor p"
proof (induction n)
  case 0
  show ?case using timeoutTask_nonempty [OF assms]
    by (simp add: timeout_entry_def)
next
  case (Suc n)
  then obtain ts where ts: "qcBuffer ((timeoutTask ^^ Suc n) p) = qcBuffer p @ ts"
    "length ts = Suc n"
    "\<forall>e\<in>set ts. recordSamplingFrequency e = - 1 \<and> recordStartTime e = anchor p"
    "lastRecordEndTime ((timeoutTask ^^ Suc n) p) = anchor p"
    by blast
  let ?q = "(timeoutTask ^^ Suc n) p"
  have ne: "qcBuffer ?q \<noteq> []" using ts(1) assms by simp
  have tsne: "ts \<noteq> []" using ts(2) by auto
  then have "last (qcBuffer ?q) = last ts" using ts(1) by simp
  moreover have "last ts \<in> set ts" using tsne by simp
  ultimately have "recordSamplingFrequency (last (qcBuffer ?q)) = - 1" using ts(3) by simp
  then have a: "anchor ?q = anchor p" using ts(4) by (simp add: anchor_def)
  have "qcBuffer (timeoutTask ?q) =
          qcBuffer p @ (ts @ [timeout_entry (anchor p) (utc_clock ?q (utc_reads ?q))])"
    using timeoutTask_nonempty(1) [OF ne] ts(1) a by simp
  moreover have "lastRecordEndTime (timeoutTask ?q) = anchor p"
    using timeoutTask_nonempty(2) [OF ne] a by simp
  ultimately show ?case using ts(2,3)
    apply (intro exI [of _ "ts @ [timeout_entry (anchor p) (utc_clock ?q (utc_reads ?q))]"])
    by (simp add: timeout_entry_def)
qed

text \<open>
  C9. Run the timeout task \<open>n\<close> times in a row on a plugin whose buffer is not empty, with
  no record appended in between. The \<open>n\<close> entries that the runs append to the buffer all
  carry the \<open>recordStartTime\<close> of the first of them: the anchor is taken from the back of
  the buffer only when the back is a real record, and after the first run the back is a
  timeout entry.
\<close>

theorem timeout_anchor_fixed:
  assumes "qcBuffer p \<noteq> []"
  shows "map recordStartTime (drop (length (qcBuffer p)) (qcBuffer ((timeoutTask ^^ n) p)))
           = replicate n (recordStartTime (last (qcBuffer (timeoutTask p))))"
proof (cases n)
  case 0
  then show ?thesis by simp
next
  case (Suc m)
  obtain ts where ts: "qcBuffer ((timeoutTask ^^ Suc m) p) = qcBuffer p @ ts"
    "length ts = Suc m"
    "\<forall>e\<in>set ts. recordSamplingFrequency e = - 1 \<and> recordStartTime e = anchor p"
    using timeoutTask_iterated [OF assms, of m] by blast
  have first: "recordStartTime (last (qcBuffer (timeoutTask p))) = anchor p"
    using timeoutTask_nonempty(1) [OF assms] by (simp add: timeout_entry_def)
  have "map recordStartTime ts = replicate (length ts) (anchor p)"
    using ts(3) by (simp add: list_eq_iff_nth_eq)
  then show ?thesis using ts(1,2) first Suc by simp
qed

theorem timeout_anchor_fixed_witness:
  "qcBuffer example_plugin \<noteq> [] \<and>
   map recordStartTime (drop 1 (qcBuffer ((timeoutTask ^^ 3) example_plugin)))
     = [10000000, 10000000, 10000000]"
  using timeout_anchor_fixed [of example_plugin 3]
  by (simp add: plugin_defs timeoutTask_nonempty anchor_def numeral_3_eq_3)

section \<open>The loop of the evaluator\<close>

lemma loop_body_unfold:
  "loop_body tw est st e =
     (if recordSamplingFrequency e = - 1 then Continue st
      else if tw_contains tw (record_window e)
        then Continue ((gaps_overlaps e st)\<lparr>effectiveSamples :=
               effectiveSamples (gaps_overlaps e st)
                 + round_private (tw_length (record_window e) * recordSamplingFrequency e)\<rparr>)
      else if tw_contains (record_window e) tw
        then Break ((gaps_overlaps e st)\<lparr>effectiveSamples := est\<rparr>)
      else if tw_overlaps tw (record_window e)
              \<and> 0 < seconds (tw_startTime tw - recordStartTime e)
        then Continue ((gaps_overlaps e st)\<lparr>effectiveSamples :=
               effectiveSamples (gaps_overlaps e st)
                 + (round_private (tw_length (record_window e) * recordSamplingFrequency e)
                    - round_private (seconds (tw_startTime tw - recordStartTime e)
                                       * recordSamplingFrequency e))\<rparr>)
      else if tw_overlaps tw (record_window e)
              \<and> 0 < seconds (recordEndTime e - tw_endTime tw)
        then Continue ((gaps_overlaps e st)\<lparr>effectiveSamples :=
               effectiveSamples (gaps_overlaps e st)
                 + (round_private (tw_length (record_window e) * recordSamplingFrequency e)
                    - round_private (seconds (recordEndTime e - tw_endTime tw)
                                       * recordSamplingFrequency e))\<rparr>)
      else Continue (gaps_overlaps e st))"
  by (simp add: loop_body_def record_window_def Let_def)

lemma loop_body_timeout:
  "recordSamplingFrequency t = - 1 \<Longrightarrow> loop_body tw est st t = Continue st"
  by (simp add: loop_body_def)

lemma availability_loop_timeouts:
  "\<forall>t\<in>set ts. recordSamplingFrequency t = - 1 \<Longrightarrow>
   availability_loop tw est st (ts @ rest) = availability_loop tw est st rest"
  by (induction ts) (simp_all add: loop_body_timeout)

lemma loop_body_break:
  assumes "recordSamplingFrequency e \<noteq> - 1" "\<not> tw_contains tw (record_window e)"
    "tw_contains (record_window e) tw"
  shows "loop_body tw est st e = Break ((gaps_overlaps e st)\<lparr>effectiveSamples := est\<rparr>)"
  using assms by (simp add: loop_body_unfold)

lemma loop_body_Break_effective:
  "loop_body tw est st e = Break st' \<Longrightarrow> effectiveSamples st' = est"
  by (auto simp: loop_body_unfold split: if_splits)

lemma loop_body_counts:
  "loop_body tw est st e = Continue st' \<or> loop_body tw est st e = Break st' \<Longrightarrow>
   recordSamplingFrequency e \<noteq> - 1 \<Longrightarrow>
   gapCount st' = gapCount (gaps_overlaps e st) \<and>
   overlapCount st' = overlapCount (gaps_overlaps e st) \<and>
   lastTime st' = recordEndTime e"
  by (auto simp: loop_body_unfold gaps_overlaps_def Let_def split: if_splits)

lemma availability_loop_cut:
  assumes "recordSamplingFrequency e \<noteq> - 1" "\<not> tw_contains tw (record_window e)"
    "tw_contains (record_window e) tw"
  shows "availability_loop tw est st (pre @ e # post) = availability_loop tw est st (pre @ [e])"
  by (induction pre arbitrary: st) (simp_all add: loop_body_break [OF assms] split: step.splits)

lemma availability_loop_cut_effective:
  assumes "recordSamplingFrequency e \<noteq> - 1" "\<not> tw_contains tw (record_window e)"
    "tw_contains (record_window e) tw"
  shows "effectiveSamples (availability_loop tw est st (pre @ [e])) = est"
proof (induction pre arbitrary: st)
  case Nil
  show ?case by (simp add: loop_body_break [OF assms])
next
  case (Cons a pre)
  show ?case
  proof (cases "loop_body tw est st a")
    case (Continue st')
    then show ?thesis using Cons by simp
  next
    case (Break st')
    then show ?thesis using loop_body_Break_effective [OF Break] by simp
  qed
qed

text \<open>
  C5 (as amended). The loop tests "record inside the analysis window" first. Let the front
  entry of the buffer be a real record. If a real entry's record window contains the
  analysis window and is not inside it, the loop ends at that entry at the latest, with the
  effective count set to the estimated count: the loop state is the one reached on the
  buffer cut after that entry, so the returned gap and overlap counts are those of the cut
  buffer and no event at a later entry is counted; and the availability is 100 when the
  estimated count is not 0.
\<close>

theorem containment_short_circuit:
  assumes "buf = pre @ e # post"
    and "recordSamplingFrequency (hd buf) \<noteq> - 1"
    and "recordSamplingFrequency e \<noteq> - 1"
    and "tw_contains (record_window e) (buf_window buf)"
    and "\<not> tw_contains (buf_window buf) (record_window e)"
  shows "availability_loop (buf_window buf) (estimated buf) loop_init buf
           = availability_loop (buf_window buf) (estimated buf) loop_init (pre @ [e]) \<and>
         effectiveSamples (availability_loop (buf_window buf) (estimated buf) loop_init buf)
           = estimated buf \<and>
         availability buf ! 1 = Finite (real_of_int (gapCount
           (availability_loop (buf_window buf) (estimated buf) loop_init (pre @ [e])))) \<and>
         availability buf ! 2 = Finite (real_of_int (overlapCount
           (availability_loop (buf_window buf) (estimated buf) loop_init (pre @ [e])))) \<and>
         (estimated buf \<noteq> 0 \<longrightarrow> availability buf ! 0 = Finite 100)"
proof -
  let ?tw = "buf_window buf" and ?est = "estimated buf"
  have cut: "availability_loop ?tw ?est loop_init buf
               = availability_loop ?tw ?est loop_init (pre @ [e])"
    using availability_loop_cut [OF assms(3,5,4)] assms(1) by simp
  have eff: "effectiveSamples (availability_loop ?tw ?est loop_init (pre @ [e])) = ?est"
    using availability_loop_cut_effective [OF assms(3,5,4)] by simp
  have "buf \<noteq> []" using assms(1) by simp
  then show ?thesis using assms(2) cut eff
    by (simp add: availability_def Let_def double_div_def)
qed

text \<open>
  The witness: the records (0 s, 30 s, 100 Hz) and (20 s, 25 s, 100 Hz). The analysis
  window is [0 s, 25 s), the first record contains it, and the overlap of the second record
  with the first is not counted.
\<close>

theorem containment_short_circuit_witness:
  "tw_contains (record_window (real_record 0 30000000 100))
     (buf_window [real_record 0 30000000 100, real_record 20000000 25000000 100]) \<and>
   \<not> tw_contains (buf_window [real_record 0 30000000 100, real_record 20000000 25000000 100])
       (record_window (real_record 0 30000000 100)) \<and>
   estimated [real_record 0 30000000 100, real_record 20000000 25000000 100] = 2500 \<and>
   availability [real_record 0 30000000 100, real_record 20000000 25000000 100]
     = [Finite 100, Finite 0, Finite 0]"
  using containment_short_circuit
    [of "[real_record 0 30000000 100, real_record 20000000 25000000 100]"
        "[]" "real_record 0 30000000 100" "[real_record 20000000 25000000 100]"]
    round_private_between [of 2500 2500] round_private_between [of 3000 3000]
  by (simp add: eval_defs record_window_def)

text \<open>
  Counterexample to C5 as stated: for the records (-5 s, 15 s, 100 Hz) and
  (20 s, 25 s, 100 Hz) the analysis window is [-5 s, 25 s); the first record lies inside it
  and does not contain it. The loop runs on, counts the gap before the second record, and
  the result is (83.33..., 1, 0), not (100, 0, 0).
\<close>

theorem scenario_S4_counts_gap:
  "availability [real_record (- 5000000) 15000000 100, real_record 20000000 25000000 100]
     = [Finite (250 / 3), Finite 1, Finite 0]"
  using round_private_between [of 3000 3000] round_private_between [of 2000 2000]
    round_private_between [of 500 500]
  by (simp add: eval_defs)

section \<open>The zero time as "no previous record"\<close>

lemma gaps_overlaps_sentinel:
  "lastTime st = Time_default \<Longrightarrow>
   gapCount (gaps_overlaps e st) = gapCount st \<and>
   overlapCount (gaps_overlaps e st) = overlapCount st"
  by (simp add: gaps_overlaps_def Let_def)

text \<open>
  C10. Let \<open>e1\<close> be a real entry whose \<open>recordEndTime\<close> is the default-constructed time,
  followed by any number of timeout entries \<open>ts\<close> and then by the next real entry \<open>e2\<close>.
  Whatever the loop state \<open>st\<close> before \<open>e1\<close> and whatever the times of \<open>e2\<close>, the gap
  count and the overlap count after \<open>e2\<close> are those after \<open>e1\<close>: nothing is counted at
  the boundary between the two.
\<close>

theorem zero_time_skips_boundary:
  assumes "recordSamplingFrequency e1 \<noteq> - 1"
    and "recordEndTime e1 = Time_default"
    and "\<forall>t\<in>set ts. recordSamplingFrequency t = - 1"
    and "recordSamplingFrequency e2 \<noteq> - 1"
  shows "gapCount (availability_loop tw est st (e1 # ts @ [e2]))
           = gapCount (availability_loop tw est st [e1]) \<and>
         overlapCount (availability_loop tw est st (e1 # ts @ [e2]))
           = overlapCount (availability_loop tw est st [e1])"
proof (cases "loop_body tw est st e1")
  case (Break st1)
  then show ?thesis by simp
next
  case (Continue st1)
  then have last: "lastTime st1 = Time_default"
    using loop_body_counts [of tw est st e1 st1] assms(1,2) by simp
  have run: "availability_loop tw est st (e1 # ts @ [e2]) = availability_loop tw est st1 [e2]"
    using Continue availability_loop_timeouts [OF assms(3)] by simp
  have "gapCount (availability_loop tw est st1 [e2]) = gapCount st1 \<and>
        overlapCount (availability_loop tw est st1 [e2]) = overlapCount st1"
  proof (cases "loop_body tw est st1 e2")
    case (Continue st2)
    then show ?thesis
      using loop_body_counts [of tw est st1 e2 st2] assms(4)
        gaps_overlaps_sentinel [OF last, of e2]
      by simp
  next
    case (Break st2)
    then show ?thesis
      using loop_body_counts [of tw est st1 e2 st2] assms(4)
        gaps_overlaps_sentinel [OF last, of e2]
      by simp
  qed
  then show ?thesis using run Continue by simp
qed

text \<open>
  The witness: a record that ends at the epoch, a timeout entry, and a record that starts
  five seconds later. The gap of five seconds is not counted.
\<close>

theorem zero_time_skips_boundary_witness:
  "recordEndTime (real_record (- 1000000) 0 100) = Time_default \<and>
   recordSamplingFrequency (timeout_entry 0 4000000) = - 1 \<and>
   gapCount (availability_loop (TimeWindow_new (- 1000000) 6000000) 700 loop_init
     [real_record (- 1000000) 0 100, timeout_entry 0 4000000, real_record 5000000 6000000 100])
     = 0 \<and>
   overlapCount (availability_loop (TimeWindow_new (- 1000000) 6000000) 700 loop_init
     [real_record (- 1000000) 0 100, timeout_entry 0 4000000, real_record 5000000 6000000 100])
     = 0"
  using zero_time_skips_boundary
    [of "real_record (- 1000000) 0 100" "[timeout_entry 0 4000000]"
        "real_record 5000000 6000000 100" "TimeWindow_new (- 1000000) 6000000" 700 loop_init]
  by (simp add: eval_defs timeout_entry_def)

section \<open>Scaling the time axis and the sampling frequencies\<close>



















end
